theory Spec2Isabelle
  imports Main "HOL-Library.Word" "HOL-Library.AList"
begin

unbundle bit_operations_syntax

section \<open>Data model\<close>

type_synonym uint32 = "32 word"
type_synonym uint64 = "64 word"
type_synonym bytes = "8 word list"

text \<open>
  Go errors are values.  \<open>Errorf\<close> is \<^verbatim>\<open>fmt.Errorf\<close> with a plain message,
  \<open>Wrapf\<close> is \<^verbatim>\<open>fmt.Errorf("...: %w", err)\<close>; \<open>CodecError\<close> and \<open>OSError\<close> are the
  opaque errors of a codec and of the operating system, \<open>ErrNotExist\<close> is the error
  that \<^verbatim>\<open>os.IsNotExist\<close> recognises.
\<close>

datatype error =
    Errorf string
  | Wrapf string error
  | CodecError string
  | OSError string
  | ErrNotExist

text \<open>A run-time panic of Go is a value of its own: it is not an \<open>error\<close> result.\<close>

datatype panic =
    IndexOutOfRange nat nat
  | NilDereference

subsection \<open>Serializable data and codecs\<close>

record ('k, 'v) Tuple =
  Key :: 'k
  Value :: 'v

record ('k, 'v) SerializableData =
  Items :: "('k, 'v) Tuple list"

text \<open>
  \<^verbatim>\<open>SerializerFunc\<close>: the function fields may be nil (\<open>None\<close>).  The Go functions take
  \<^verbatim>\<open>interface{}\<close>; the only value this package ever hands them is a
  \<^verbatim>\<open>SerializableData[K, V]\<close>, so the model types them at it.  \<^verbatim>\<open>UnmarshalFunc(data, &v)\<close>
  fills a fresh variable and returns an error; the model returns the error or the
  decoded value.
\<close>

record ('k, 'v) SerializerFunc =
  NameFunc :: string
  MarshalFunc :: "(('k, 'v) SerializableData \<Rightarrow> error + bytes) option"
  UnmarshalFunc :: "(bytes \<Rightarrow> error + ('k, 'v) SerializableData) option"
  isJSON :: bool

subsection \<open>Options\<close>

record ('k, 'v) Options =
  ShardCount :: uint32
  Serializer :: "('k, 'v) SerializerFunc option"

definition WithShardCount ::
  "uint32 \<Rightarrow> ('k, 'v) Options \<Rightarrow> ('k, 'v) Options" where
  "WithShardCount count o' = o'\<lparr>ShardCount := count\<rparr>"

definition WithSerializer ::
  "('k, 'v) SerializerFunc option \<Rightarrow> ('k, 'v) Options \<Rightarrow> ('k, 'v) Options" where
  "WithSerializer v o' = o'\<lparr>Serializer := v\<rparr>"

subsection \<open>The backend map of a shard\<close>

text \<open>
  A shard delegates to a \<^verbatim>\<open>maps.Map[K, V]\<close> of the gods library (hash map, tree map or
  linked hash map), which is not part of this repository.  It is modelled as an
  association list; the operations are those of the interface that the package calls.
  The locks of a shard and of the Map are not modelled: every operation is taken as a
  whole, without interleaving.  The \<^verbatim>\<open>opts\<close> field of a shard is never read.
\<close>

type_synonym ('k, 'v) shard = "('k \<times> 'v) list"

definition be_New :: "('k, 'v) shard" where
  "be_New = []"

definition be_Put :: "('k, 'v) shard \<Rightarrow> 'k \<Rightarrow> 'v \<Rightarrow> ('k, 'v) shard" where
  "be_Put s k v = AList.update k v s"

text \<open>Go's \<^verbatim>\<open>(value, found)\<close> pair is an option: \<open>None\<close> is \<^verbatim>\<open>(zero, false)\<close>.\<close>

definition be_Get :: "('k, 'v) shard \<Rightarrow> 'k \<Rightarrow> 'v option" where
  "be_Get s k = map_of s k"

definition be_Remove :: "('k, 'v) shard \<Rightarrow> 'k \<Rightarrow> ('k, 'v) shard" where
  "be_Remove s k = AList.delete k s"

definition be_Size :: "('k, 'v) shard \<Rightarrow> int" where
  "be_Size s = int (length s)"

definition be_Empty :: "('k, 'v) shard \<Rightarrow> bool" where
  "be_Empty s = (be_Size s = 0)"

definition be_Clear :: "('k, 'v) shard \<Rightarrow> ('k, 'v) shard" where
  "be_Clear s = []"

definition be_Keys :: "('k, 'v) shard \<Rightarrow> 'k list" where
  "be_Keys s = map fst s"

subsection \<open>The Map\<close>

record ('k, 'v) Map =
  shards :: "('k, 'v) shard list"
  mask32 :: uint32
  dirty :: bool
  hasher :: "'k \<Rightarrow> uint32"
  opts :: "('k, 'v) Options"

section \<open>Operations of the Map (cmap.go)\<close>

text \<open>
  \<^verbatim>\<open>getShard\<close> returns \<^verbatim>\<open>&m.shards[hash&m.mask]\<close>; the model returns the index, or the
  panic of Go's bounds check.
\<close>

definition getShard :: "('k, 'v) Map \<Rightarrow> 'k \<Rightarrow> panic + nat" where
  "getShard m key =
     (let hash = hasher m key;
          i = unat (hash AND mask32 m)
      in if i < length (shards m) then Inr i
         else Inl (IndexOutOfRange i (length (shards m))))"

definition Put :: "('k, 'v) Map \<Rightarrow> 'k \<Rightarrow> 'v \<Rightarrow> panic + ('k, 'v) Map" where
  "Put m key val =
     (case getShard m key of
        Inl p \<Rightarrow> Inl p
      | Inr i \<Rightarrow>
          Inr (m\<lparr>shards := (shards m)[i := be_Put (shards m ! i) key val],
                 dirty := True\<rparr>))"

definition Get :: "('k, 'v) Map \<Rightarrow> 'k \<Rightarrow> panic + 'v option" where
  "Get m key =
     (case getShard m key of
        Inl p \<Rightarrow> Inl p
      | Inr i \<Rightarrow> Inr (be_Get (shards m ! i) key))"

definition Remove :: "('k, 'v) Map \<Rightarrow> 'k \<Rightarrow> panic + ('k, 'v) Map" where
  "Remove m key =
     (case getShard m key of
        Inl p \<Rightarrow> Inl p
      | Inr i \<Rightarrow>
          (let ok = (be_Get (shards m ! i) key \<noteq> None)
           in if ok
              then Inr (m\<lparr>shards := (shards m)[i := be_Remove (shards m ! i) key],
                          dirty := True\<rparr>)
              else Inr m))"

text \<open>The loop of \<^verbatim>\<open>Empty\<close> returns at the first shard that is not empty.\<close>

fun Empty_loop :: "('k, 'v) shard list \<Rightarrow> bool" where
  "Empty_loop [] = True"
| "Empty_loop (s # ss) = (if \<not> be_Empty s then False else Empty_loop ss)"

definition Empty :: "('k, 'v) Map \<Rightarrow> bool" where
  "Empty m = Empty_loop (shards m)"

text \<open>
  The loop of \<^verbatim>\<open>Size\<close> adds the sizes to an accumulator.  Go's \<^verbatim>\<open>int\<close> has 64 bits; the
  entries of all shards are in memory, so the sum cannot reach \<open>2 ^ 63\<close> and the
  accumulator is an unbounded \<open>int\<close>.
\<close>

fun Size_loop :: "('k, 'v) shard list \<Rightarrow> int \<Rightarrow> int" where
  "Size_loop [] sz = sz"
| "Size_loop (s # ss) sz = Size_loop ss (sz + be_Size s)"

definition Size :: "('k, 'v) Map \<Rightarrow> int" where
  "Size m = Size_loop (shards m) 0"

definition Clear :: "('k, 'v) Map \<Rightarrow> ('k, 'v) Map" where
  "Clear m = m\<lparr>shards := map be_Clear (shards m), dirty := True\<rparr>"

definition IsDirty :: "('k, 'v) Map \<Rightarrow> bool" where
  "IsDirty m = dirty m"

definition roundUpToPowerOf2 :: "uint32 \<Rightarrow> uint32" where
  "roundUpToPowerOf2 n =
     (if n = 0 then 1
      else
        let n = n - 1;
            n = n OR drop_bit 1 n;
            n = n OR drop_bit 2 n;
            n = n OR drop_bit 4 n;
            n = n OR drop_bit 8 n;
            n = n OR drop_bit 16 n;
            n = n + 1
        in n)"

section \<open>Construction\<close>

text \<open>
  What \<^verbatim>\<open>createMap\<close> takes from outside the repository: the number of CPUs of
  \<^verbatim>\<open>runtime.NumCPU()\<close> and the marshal and unmarshal functions of the packages
  \<^verbatim>\<open>encoding/json\<close> and \<^verbatim>\<open>encoding/gob\<close>.
\<close>

record ('k, 'v) extern =
  NumCPU :: int
  json_Marshal :: "('k, 'v) SerializableData \<Rightarrow> error + bytes"
  json_Unmarshal :: "bytes \<Rightarrow> error + ('k, 'v) SerializableData"
  gob_Encode :: "('k, 'v) SerializableData \<Rightarrow> error + bytes"
  gob_Decode :: "bytes \<Rightarrow> error + ('k, 'v) SerializableData"

definition JsonSerializer :: "('k, 'v) extern \<Rightarrow> ('k, 'v) SerializerFunc" where
  "JsonSerializer ex =
     \<lparr>NameFunc = ''json'',
      MarshalFunc = Some (json_Marshal ex),
      UnmarshalFunc = Some (json_Unmarshal ex),
      isJSON = True\<rparr>"

text \<open>The struct literal of \<^verbatim>\<open>GobSerializer\<close> leaves \<^verbatim>\<open>isJSON\<close> at its zero value.\<close>

definition GobSerializer :: "('k, 'v) extern \<Rightarrow> ('k, 'v) SerializerFunc" where
  "GobSerializer ex =
     \<lparr>NameFunc = ''gob'',
      MarshalFunc = Some (gob_Encode ex),
      UnmarshalFunc = Some (gob_Decode ex),
      isJSON = False\<rparr>"

text \<open>
  \<^verbatim>\<open>createMap\<close>.  \<^verbatim>\<open>getHasher[K]()\<close> chooses the hasher by the static key type; the
  model takes the chosen hash function \<open>h\<close>.  \<^verbatim>\<open>uint32(runtime.NumCPU() * 16)\<close>
  truncates to 32 bits.
\<close>

definition createMap ::
  "('k, 'v) extern \<Rightarrow> ('k \<Rightarrow> uint32) \<Rightarrow> (unit \<Rightarrow> ('k, 'v) shard) \<Rightarrow>
   (('k, 'v) Options \<Rightarrow> ('k, 'v) Options) list \<Rightarrow> ('k, 'v) Map" where
  "createMap ex h createUnderlyingMap options =
     (let opts0 = \<lparr>ShardCount = word_of_int (NumCPU ex * 16),
                    Serializer = Some (JsonSerializer ex)\<rparr>;
          os = foldl (\<lambda>acc option. option acc) opts0 options;
          shardCount = roundUpToPowerOf2 (ShardCount os);
          shs = map (\<lambda>i. createUnderlyingMap ()) [0 ..< unat shardCount]
      in \<lparr>shards = shs,
          mask32 = shardCount - 1,
          dirty = False,
          hasher = h,
          opts = os\<rparr>)"

definition NewHashMap ::
  "('k, 'v) extern \<Rightarrow> ('k \<Rightarrow> uint32) \<Rightarrow>
   (('k, 'v) Options \<Rightarrow> ('k, 'v) Options) list \<Rightarrow> ('k, 'v) Map" where
  "NewHashMap ex h options = createMap ex h (\<lambda>_. be_New) options"

section \<open>Hash functions\<close>

definition uint32Hash :: "uint32 \<Rightarrow> uint32" where
  "uint32Hash key =
     (let x = key;
          x = (drop_bit 16 x XOR x) * 0x45d9f3b;
          x = (drop_bit 16 x XOR x) * 0x45d9f3b;
          x = drop_bit 16 x XOR x
      in x)"

definition uint64Hash :: "uint64 \<Rightarrow> uint32" where
  "uint64Hash key =
     (let x = key;
          x = (x XOR drop_bit 30 x) * 0xbf58476d1ce4e5b9;
          x = (x XOR drop_bit 27 x) * 0x94d049bb133111eb;
          x = x XOR drop_bit 31 x
      in ucast x)"

text \<open>
  A \<^verbatim>\<open>float32\<close> or \<^verbatim>\<open>float64\<close> key is modelled by its IEEE-754 bit pattern, which is
  what \<^verbatim>\<open>*(*uint32)(unsafe.Pointer(&key))\<close> reads.  The two tests that the hash
  functions make are tests of the bit pattern: \<^verbatim>\<open>math.IsNaN\<close> holds when the exponent
  bits are all set and the fraction is not zero (the conversion \<^verbatim>\<open>float64(key)\<close> keeps a
  NaN a NaN), and \<^verbatim>\<open>key == 0\<close> holds when all bits but the sign are clear.
\<close>

definition float32_IsNaN :: "uint32 \<Rightarrow> bool" where
  "float32_IsNaN b = (b AND 0x7F800000 = 0x7F800000 \<and> b AND 0x007FFFFF \<noteq> 0)"

definition float32_eq_zero :: "uint32 \<Rightarrow> bool" where
  "float32_eq_zero b = (b AND 0x7FFFFFFF = 0)"

definition float64_IsNaN :: "uint64 \<Rightarrow> bool" where
  "float64_IsNaN b =
     (b AND 0x7FF0000000000000 = 0x7FF0000000000000 \<and> b AND 0x000FFFFFFFFFFFFF \<noteq> 0)"

definition float64_eq_zero :: "uint64 \<Rightarrow> bool" where
  "float64_eq_zero b = (b AND 0x7FFFFFFFFFFFFFFF = 0)"

text \<open>
  Go's \<^verbatim>\<open>==\<close> on floats: a NaN equals nothing, the two zeros are equal, and any other
  two values are equal when their bit patterns are.
\<close>

definition float32_eq :: "uint32 \<Rightarrow> uint32 \<Rightarrow> bool" where
  "float32_eq a b =
     (\<not> float32_IsNaN a \<and> \<not> float32_IsNaN b \<and>
      (a = b \<or> (float32_eq_zero a \<and> float32_eq_zero b)))"

definition float64_eq :: "uint64 \<Rightarrow> uint64 \<Rightarrow> bool" where
  "float64_eq a b =
     (\<not> float64_IsNaN a \<and> \<not> float64_IsNaN b \<and>
      (a = b \<or> (float64_eq_zero a \<and> float64_eq_zero b)))"

definition float32Hash :: "uint32 \<Rightarrow> uint32" where
  "float32Hash key =
     (if float32_IsNaN key then 0x7FFFFFFF
      else if float32_eq_zero key then 0
      else uint32Hash key)"

definition float64Hash :: "uint64 \<Rightarrow> uint32" where
  "float64Hash key =
     (if float64_IsNaN key then 0x7FFFFFFF
      else if float64_eq_zero key then 0
      else uint64Hash key)"

section \<open>Serialization\<close>

text \<open>
  The type assertion \<^verbatim>\<open>any(serializer).(JSONCompatible)\<close> asks whether the dynamic type
  \<^verbatim>\<open>*SerializerFunc\<close> has the method \<^verbatim>\<open>IsJSON() bool\<close>.  It has, for
  every value: the assertion does not call the method and does not read the field
  \<^verbatim>\<open>isJSON\<close>.
\<close>

definition implements_JSONCompatible :: "('k, 'v) SerializerFunc \<Rightarrow> bool" where
  "implements_JSONCompatible serializer = True"

definition IsJSON :: "('k, 'v) SerializerFunc \<Rightarrow> bool" where
  "IsJSON s = isJSON s"

definition getJSONSerializer ::
  "('k, 'v) extern \<Rightarrow> ('k, 'v) Map \<Rightarrow> ('k, 'v) SerializerFunc" where
  "getJSONSerializer ex m =
     (case Serializer (opts m) of
        None \<Rightarrow> JsonSerializer ex
      | Some serializer \<Rightarrow>
          if implements_JSONCompatible serializer then serializer
          else JsonSerializer ex)"

text \<open>
  The entries of one shard, in the order of its keys.  The value of a key that
  \<^verbatim>\<open>Keys()\<close> has just listed is always found (lemma \<open>be_Get_of_key\<close>), so the zero
  value of a failed lookup never appears.
\<close>

definition shard_items :: "('k, 'v) shard \<Rightarrow> ('k, 'v) Tuple list" where
  "shard_items s = map (\<lambda>key. \<lparr>Key = key, Value = the (be_Get s key)\<rparr>) (be_Keys s)"

fun MarshalWith_loop ::
  "('k, 'v) shard list \<Rightarrow> ('k, 'v) Tuple list \<Rightarrow> ('k, 'v) Tuple list" where
  "MarshalWith_loop [] items = items"
| "MarshalWith_loop (s # ss) items = MarshalWith_loop ss (items @ shard_items s)"

text \<open>
  A nil serializer, or one whose function field is nil, makes the call panic.  The
  result is the panic, or what the codec returns.
\<close>

definition MarshalWith ::
  "('k, 'v) Map \<Rightarrow> ('k, 'v) SerializerFunc option \<Rightarrow> panic + (error + bytes)" where
  "MarshalWith m serializer =
     (let items = MarshalWith_loop (shards m) [];
          data = \<lparr>Items = items\<rparr>
      in case serializer of
           None \<Rightarrow> Inl NilDereference
         | Some s \<Rightarrow>
            (case MarshalFunc s of
               None \<Rightarrow> Inl NilDereference
             | Some f \<Rightarrow> Inr (f data)))"

fun Put_loop ::
  "('k, 'v) Map \<Rightarrow> ('k, 'v) Tuple list \<Rightarrow> panic + ('k, 'v) Map" where
  "Put_loop m [] = Inr m"
| "Put_loop m (tuple # rest) =
     (case Put m (Key tuple) (Value tuple) of
        Inl p \<Rightarrow> Inl p
      | Inr m' \<Rightarrow> Put_loop m' rest)"

text \<open>The result is the panic, or the Map after the call with the returned error.\<close>

definition UnmarshalWith ::
  "('k, 'v) Map \<Rightarrow> bytes \<Rightarrow> ('k, 'v) SerializerFunc option \<Rightarrow>
   panic + (('k, 'v) Map \<times> error option)" where
  "UnmarshalWith m data serializer =
     (case serializer of
        None \<Rightarrow> Inl NilDereference
      | Some s \<Rightarrow>
         (case UnmarshalFunc s of
            None \<Rightarrow> Inl NilDereference
          | Some f \<Rightarrow>
             (case f data of
                Inl err \<Rightarrow> Inr (m, Some err)
              | Inr serializableData \<Rightarrow>
                 (case Put_loop (Clear m) (Items serializableData) of
                    Inl p \<Rightarrow> Inl p
                  | Inr m' \<Rightarrow> Inr (m'\<lparr>dirty := False\<rparr>, None)))))"

definition MarshalJSON ::
  "('k, 'v) extern \<Rightarrow> ('k, 'v) Map \<Rightarrow> panic + (error + bytes)" where
  "MarshalJSON ex m = MarshalWith m (Some (getJSONSerializer ex m))"

definition UnmarshalJSON ::
  "('k, 'v) extern \<Rightarrow> ('k, 'v) Map \<Rightarrow> bytes \<Rightarrow> panic + (('k, 'v) Map \<times> error option)" where
  "UnmarshalJSON ex m data = UnmarshalWith m data (Some (getJSONSerializer ex m))"

section \<open>Persistence (file.go)\<close>

subsection \<open>The operating system\<close>

text \<open>
  The file system that the package sees through \<^verbatim>\<open>os\<close>: the regular files with their
  content, the directories, and the paths on which an operation fails (no permission,
  a missing parent).  \<open>calls\<close> records every call of an \<^verbatim>\<open>os\<close> function, in order,
  so that a theorem can say that no I/O took place.
\<close>

datatype oscall =
    MkdirAll string
  | WriteFile string bytes
  | Rename string string
  | RemoveFile string
  | Stat string
  | ReadFile string

record FS =
  files :: "string \<Rightarrow> bytes option"
  dirs :: "string \<Rightarrow> bool"
  faulty :: "string \<Rightarrow> bool"
  calls :: "oscall list"

definition os_MkdirAll :: "FS \<Rightarrow> string \<Rightarrow> FS \<times> error option" where
  "os_MkdirAll w dir =
     (let w' = w\<lparr>calls := calls w @ [MkdirAll dir]\<rparr>
      in if faulty w dir then (w', Some (OSError ''mkdir''))
         else (w'\<lparr>dirs := (dirs w)(dir := True)\<rparr>, None))"

definition os_WriteFile :: "FS \<Rightarrow> string \<Rightarrow> bytes \<Rightarrow> FS \<times> error option" where
  "os_WriteFile w name data =
     (let w' = w\<lparr>calls := calls w @ [WriteFile name data]\<rparr>
      in if faulty w name then (w', Some (OSError ''write''))
         else (w'\<lparr>files := (files w)(name \<mapsto> data)\<rparr>, None))"

definition os_Rename :: "FS \<Rightarrow> string \<Rightarrow> string \<Rightarrow> FS \<times> error option" where
  "os_Rename w oldpath newpath =
     (let w' = w\<lparr>calls := calls w @ [Rename oldpath newpath]\<rparr>
      in if faulty w newpath \<or> files w oldpath = None then (w', Some (OSError ''rename''))
         else (w'\<lparr>files := (files w)(newpath := files w oldpath, oldpath := None)\<rparr>, None))"

definition os_Remove :: "FS \<Rightarrow> string \<Rightarrow> FS \<times> error option" where
  "os_Remove w name =
     (let w' = w\<lparr>calls := calls w @ [RemoveFile name]\<rparr>
      in if files w name = None then (w', Some ErrNotExist)
         else (w'\<lparr>files := (files w)(name := None)\<rparr>, None))"

definition os_Stat :: "FS \<Rightarrow> string \<Rightarrow> FS \<times> error option" where
  "os_Stat w name =
     (let w' = w\<lparr>calls := calls w @ [Stat name]\<rparr>
      in if files w name = None \<and> \<not> dirs w name then (w', Some ErrNotExist)
         else (w', None))"

definition os_ReadFile :: "FS \<Rightarrow> string \<Rightarrow> FS \<times> (error + bytes)" where
  "os_ReadFile w name =
     (let w' = w\<lparr>calls := calls w @ [ReadFile name]\<rparr>
      in case files w name of
           None \<Rightarrow> (w', Inl (OSError ''read''))
         | Some data \<Rightarrow>
             if faulty w name then (w', Inl (OSError ''read'')) else (w', Inr data))"

definition os_IsNotExist :: "error option \<Rightarrow> bool" where
  "os_IsNotExist err = (err = Some ErrNotExist)"

text \<open>
  \<^verbatim>\<open>filepath.IsAbs\<close> and \<^verbatim>\<open>filepath.Dir\<close> depend on the platform; they are parameters.
\<close>

record filepath =
  IsAbs :: "string \<Rightarrow> bool"
  Dir :: "string \<Rightarrow> string"

subsection \<open>SaveToFile and LoadFromFile\<close>

text \<open>
  The result of both is the panic, or the Map and the file system after the call with
  the returned error (\<open>None\<close> is nil).
\<close>

definition SaveToFile ::
  "filepath \<Rightarrow> ('k, 'v) Map \<Rightarrow> FS \<Rightarrow> string \<Rightarrow>
   panic + (('k, 'v) Map \<times> FS \<times> error option)" where
  "SaveToFile fp m w filename =
     (if filename = '''' then Inr (m, w, Some (Errorf ''filename cannot be empty''))
      else
        let (w1, mkerr) =
              (if \<not> IsAbs fp filename
               then (let dir = Dir fp filename
                     in if dir \<noteq> ''.'' \<and> dir \<noteq> '''' then os_MkdirAll w dir
                        else (w, None))
               else (w, None))
        in case mkerr of
             Some err \<Rightarrow>
               Inr (m, w1, Some (Wrapf (''failed to create directory '' @ Dir fp filename) err))
           | None \<Rightarrow>
              (case Serializer (opts m) of
                 None \<Rightarrow> Inr (m, w1, Some (Errorf ''no serializer configured for marshaling''))
               | Some s \<Rightarrow>
                  if MarshalFunc s = None
                  then Inr (m, w1, Some (Errorf ''no serializer configured for marshaling''))
                  else
                    let sz = Size m
                    in if sz > 0 \<and> \<not> dirty m then Inr (m, w1, None)
                       else
                        (case MarshalWith m (Serializer (opts m)) of
                           Inl p \<Rightarrow> Inl p
                         | Inr (Inl err) \<Rightarrow>
                             Inr (m, w1, Some (Wrapf ''failed to marshal data'' err))
                         | Inr (Inr data) \<Rightarrow>
                            (let tempFile = filename @ ''.tmp'';
                                 (w2, werr) = os_WriteFile w1 tempFile data
                             in case werr of
                                  Some err \<Rightarrow>
                                    Inr (m, w2,
                                      Some (Wrapf (''failed to write temporary file '' @ tempFile) err))
                                | None \<Rightarrow>
                                   (let (w3, rerr) = os_Rename w2 tempFile filename
                                    in case rerr of
                                         Some err \<Rightarrow>
                                           (let (w4, _) = os_Remove w3 tempFile
                                            in Inr (m, w4,
                                                 Some (Wrapf (''failed to rename temporary file to '' @ filename) err)))
                                       | None \<Rightarrow> Inr (m\<lparr>dirty := False\<rparr>, w3, None))))))"

definition LoadFromFile ::
  "filepath \<Rightarrow> ('k, 'v) Map \<Rightarrow> FS \<Rightarrow> string \<Rightarrow>
   panic + (('k, 'v) Map \<times> FS \<times> error option)" where
  "LoadFromFile fp m w filename =
     (if filename = '''' then Inr (m, w, Some (Errorf ''filename cannot be empty''))
      else
       (case Serializer (opts m) of
          None \<Rightarrow> Inr (m, w, Some (Errorf ''no serializer configured for unmarshaling''))
        | Some s \<Rightarrow>
           if UnmarshalFunc s = None
           then Inr (m, w, Some (Errorf ''no serializer configured for unmarshaling''))
           else
             let (w1, serr) = os_Stat w filename
             in if os_IsNotExist serr
                then Inr (m, w1, Some (Errorf (''file '' @ filename @ '' does not exist'')))
                else
                  let (w2, rd) = os_ReadFile w1 filename
                  in case rd of
                       Inl err \<Rightarrow>
                         Inr (m, w2, Some (Wrapf (''failed to read file '' @ filename) err))
                     | Inr data \<Rightarrow>
                        if length data = 0
                        then Inr ((Clear m)\<lparr>dirty := False\<rparr>, w2, None)
                        else
                         (case UnmarshalWith m data (Serializer (opts m)) of
                            Inl p \<Rightarrow> Inl p
                          | Inr (m', Some err) \<Rightarrow>
                              Inr (m', w2,
                                Some (Wrapf (''failed to unmarshal data from '' @ filename) err))
                          | Inr (m', None) \<Rightarrow> Inr (m'\<lparr>dirty := False\<rparr>, w2, None))))"

section \<open>A concrete instance\<close>

text \<open>
  Keys and values of type \<^verbatim>\<open>uint8\<close>.  \<^verbatim>\<open>uint8Hasher.Hash\<close> converts the key to
  \<^verbatim>\<open>uint32\<close> and calls \<^verbatim>\<open>uint32Hash\<close>.
\<close>

definition uint8Hasher_Hash :: "8 word \<Rightarrow> uint32" where
  "uint8Hasher_Hash key = uint32Hash (ucast key)"

text \<open>
  A small codec for such entries: the key byte and the value byte of every entry, in
  order.  Decoding fails on an odd number of bytes.
\<close>

definition pairs_Marshal :: "(8 word, 8 word) SerializableData \<Rightarrow> error + bytes" where
  "pairs_Marshal d = Inr (concat (map (\<lambda>t. [Key t, Value t]) (Items d)))"

fun pairs_decode :: "bytes \<Rightarrow> error + (8 word, 8 word) Tuple list" where
  "pairs_decode [] = Inr []"
| "pairs_decode [k] = Inl (CodecError ''unexpected end of input'')"
| "pairs_decode (k # v # rest) =
     (case pairs_decode rest of
        Inl err \<Rightarrow> Inl err
      | Inr ts \<Rightarrow> Inr (\<lparr>Key = k, Value = v\<rparr> # ts))"

definition pairs_Unmarshal :: "bytes \<Rightarrow> error + (8 word, 8 word) SerializableData" where
  "pairs_Unmarshal b =
     (case pairs_decode b of Inl err \<Rightarrow> Inl err | Inr ts \<Rightarrow> Inr \<lparr>Items = ts\<rparr>)"

definition pairs_Serializer :: "(8 word, 8 word) SerializerFunc" where
  "pairs_Serializer =
     \<lparr>NameFunc = ''pairs'',
      MarshalFunc = Some pairs_Marshal,
      UnmarshalFunc = Some pairs_Unmarshal,
      isJSON = False\<rparr>"

definition example_extern :: "(8 word, 8 word) extern" where
  "example_extern =
     \<lparr>NumCPU = 1,
      json_Marshal = pairs_Marshal,
      json_Unmarshal = pairs_Unmarshal,
      gob_Encode = pairs_Marshal,
      gob_Decode = pairs_Unmarshal\<rparr>"

text \<open>A Map of two shards, as \<^verbatim>\<open>New[uint8, uint8](WithShardCount(2))\<close> makes it.\<close>

definition example_new :: "(8 word, 8 word) Map" where
  "example_new = NewHashMap example_extern uint8Hasher_Hash [WithShardCount 2]"

text \<open>The same Map after \<^verbatim>\<open>Put(7, 42)\<close> and \<^verbatim>\<open>Put(2, 20)\<close>.\<close>

definition example_Map :: "(8 word, 8 word) Map" where
  "example_Map =
     example_new\<lparr>shards := [[(2, 20)], [(7, 42)]], dirty := True\<rparr>"

text \<open>An empty file system without faults, and Unix paths with one directory level.\<close>

definition example_FS :: FS where
  "example_FS =
     \<lparr>files = (\<lambda>_. None), dirs = (\<lambda>_. False), faulty = (\<lambda>_. False), calls = []\<rparr>"

definition example_filepath :: filepath where
  "example_filepath =
     \<lparr>IsAbs = (\<lambda>p. take 1 p = ''/''),
      Dir = (\<lambda>p. if CHR ''/'' \<in> set p then takeWhile (\<lambda>c. c \<noteq> CHR ''/'') p else ''.'')\<rparr>"


section \<open>Auxiliary notions for the proofs\<close>

text \<open>The five shift-and-or steps of \<^verbatim>\<open>roundUpToPowerOf2\<close>, named for the proofs.\<close>

definition smear :: "uint32 \<Rightarrow> uint32" where
  "smear x =
     (let n = x;
          n = n OR drop_bit 1 n;
          n = n OR drop_bit 2 n;
          n = n OR drop_bit 4 n;
          n = n OR drop_bit 8 n;
          n = n OR drop_bit 16 n
      in n)"

text \<open>Some bit of \<open>x\<close> is set in the window of \<open>d\<close> positions that starts at \<open>i\<close>.\<close>

definition window :: "uint32 \<Rightarrow> nat \<Rightarrow> nat \<Rightarrow> bool" where
  "window x d i = (\<exists>j. i \<le> j \<and> j < i + d \<and> bit x j)"

text \<open>The shard array fits the mask: every masked hash is an index of the array.\<close>

definition shards_fit :: "('k, 'v) Map \<Rightarrow> bool" where
  "shards_fit m = (length (shards m) = Suc (unat (mask32 m)))"



text \<open>
  The shard a key is routed to, the invariant of a Map (the shard array fits the mask,
  the keys of a shard are distinct and are routed to it), the finite map a Map stands
  for, and its entries as one list.
\<close>

definition slot :: "('k, 'v) Map \<Rightarrow> 'k \<Rightarrow> nat" where
  "slot m k = unat (hasher m k AND mask32 m)"

definition routed :: "('k, 'v) Map \<Rightarrow> bool" where
  "routed m =
     (shards_fit m \<and>
      (\<forall>i<length (shards m).
         distinct (map fst (shards m ! i)) \<and>
         (\<forall>k\<in>fst ` set (shards m ! i). slot m k = i)))"

definition lookup :: "('k, 'v) Map \<Rightarrow> 'k \<Rightarrow> 'v option" where
  "lookup m k = map_of (shards m ! slot m k) k"

definition entries :: "('k, 'v) Map \<Rightarrow> ('k \<times> 'v) list" where
  "entries m = concat (shards m)"

definition pair_of :: "('k, 'v) Tuple \<Rightarrow> 'k \<times> 'v" where
  "pair_of t = (Key t, Value t)"

section \<open>Properties\<close>

subsection \<open>Empty and Size\<close>

lemma Size_loop_acc: "Size_loop ss a = a + Size_loop ss 0"
proof (induction ss arbitrary: a)
  case Nil
  show ?case by simp
next
  case (Cons s ss)
  have "Size_loop (s # ss) a = Size_loop ss (a + be_Size s)" by simp
  also have "\<dots> = (a + be_Size s) + Size_loop ss 0" by (rule Cons.IH)
  also have "\<dots> = a + (be_Size s + Size_loop ss 0)" by simp
  also have "be_Size s + Size_loop ss 0 = Size_loop ss (0 + be_Size s)"
    using Cons.IH [of "0 + be_Size s"] by simp
  finally show ?case by simp
qed

lemma Size_loop_nonneg: "0 \<le> Size_loop ss 0"
proof (induction ss)
  case Nil
  show ?case by simp
next
  case (Cons s ss)
  have "Size_loop (s # ss) 0 = be_Size s + Size_loop ss 0"
    using Size_loop_acc [of ss "be_Size s"] by simp
  moreover have "0 \<le> be_Size s" by (simp add: be_Size_def)
  ultimately show ?case using Cons.IH by simp
qed

text \<open>
  C10.  In every state of the Map (whatever operations led to it), \<open>Empty\<close> returns
  true exactly when \<open>Size\<close> returns 0.
\<close>

theorem Empty_iff_Size_0: "Empty m = (Size m = 0)"
proof -
  have "Empty_loop ss = (Size_loop ss 0 = 0)" for ss :: "('k, 'v) shard list"
  proof (induction ss)
    case Nil
    show ?case by simp
  next
    case (Cons s ss)
    have split: "Size_loop (s # ss) 0 = be_Size s + Size_loop ss 0"
      using Size_loop_acc [of ss "be_Size s"] by simp
    have "0 \<le> be_Size s" by (simp add: be_Size_def)
    with Size_loop_nonneg [of ss] split Cons.IH show ?case
      by (auto simp: be_Empty_def)
  qed
  then show ?thesis by (simp add: Empty_def Size_def)
qed

subsection \<open>Rounding the shard count\<close>


lemma window_double: "(window x d i \<or> window x d (i + d)) = window x (2 * d) i"
  unfolding window_def
  apply (rule iffI)
   apply (erule disjE)
    apply (erule exE)
    subgoal for j by (rule exI [of _ j]) simp
   apply (erule exE)
   subgoal for j by (rule exI [of _ j]) simp
  apply (erule exE)
  subgoal for j by (cases "j < i + d") auto
  done

lemma smear_step:
  fixes y :: uint32
  assumes "\<And>i. bit y i = window x d i"
  shows "bit (y OR drop_bit d y) i = window x (2 * d) i"
proof -
  have "bit (y OR drop_bit d y) i = (bit y i \<or> bit y (d + i))"
    by (simp add: bit_or_iff bit_drop_bit_eq)
  also have "\<dots> = (window x d i \<or> window x d (i + d))"
    by (simp add: assms add.commute)
  finally show ?thesis by (simp add: window_double)
qed

lemma bit_smear: "bit (smear x) i = (\<exists>j. i \<le> j \<and> bit x j)"
proof -
  have w1: "bit x i = window x 1 i" for i
    unfolding window_def by (metis less_add_one add.commute le_antisym not_less_eq_eq Suc_eq_plus1 less_Suc_eq_le order_refl)
  define y1 where "y1 = x OR drop_bit 1 x"
  define y2 where "y2 = y1 OR drop_bit 2 y1"
  define y3 where "y3 = y2 OR drop_bit 4 y2"
  define y4 where "y4 = y3 OR drop_bit 8 y3"
  define y5 where "y5 = y4 OR drop_bit 16 y4"
  have b1: "bit y1 i = window x 2 i" for i
    unfolding y1_def using smear_step [of x x 1 i, OF w1] by simp
  have b2: "bit y2 i = window x 4 i" for i
    unfolding y2_def using smear_step [of y1 x 2 i, OF b1] by simp
  have b3: "bit y3 i = window x 8 i" for i
    unfolding y3_def using smear_step [of y2 x 4 i, OF b2] by simp
  have b4: "bit y4 i = window x 16 i" for i
    unfolding y4_def using smear_step [of y3 x 8 i, OF b3] by simp
  have b5: "bit y5 i = window x 32 i" for i
    unfolding y5_def using smear_step [of y4 x 16 i, OF b4] by simp
  have "smear x = y5"
    by (simp add: smear_def Let_def y1_def y2_def y3_def y4_def y5_def)
  moreover have "window x 32 i = (\<exists>j. i \<le> j \<and> bit x j)"
  proof
    assume "window x 32 i" then show "\<exists>j. i \<le> j \<and> bit x j"
      unfolding window_def by blast
  next
    assume "\<exists>j. i \<le> j \<and> bit x j"
    then obtain j where j: "i \<le> j" "bit x j" by blast
    from j(2) have "j < 32" using bit_imp_le_length [of x j] by simp
    with j show "window x 32 i" unfolding window_def by (intro exI [of _ j]) simp
  qed
  ultimately show ?thesis using b5 by simp
qed


lemma unat_less_exp_iff:
  fixes x :: uint32
  shows "(unat x < 2 ^ k) = (\<forall>j\<ge>k. \<not> bit x j)"
proof -
  have "(unat x < 2 ^ k) = (take_bit k (unat x) = unat x)"
    by (simp add: take_bit_nat_eq_self_iff)
  also have "\<dots> = (\<forall>j. bit (unat x) j \<longrightarrow> j < k)"
    by (auto simp: bit_eq_iff bit_take_bit_iff)
  also have "\<dots> = (\<forall>j\<ge>k. \<not> bit x j)"
    by (simp add: bit_unsigned_iff) (meson not_less)
  finally show ?thesis .
qed

lemma smear_eq_mask:
  fixes x :: uint32
  assumes lt: "unat x < 2 ^ k" and least: "\<And>j. unat x < 2 ^ j \<Longrightarrow> k \<le> j"
  shows "smear x = mask k"
proof (rule bit_eqI)
  fix i
  assume "possible_bit TYPE(uint32) i"
  then have i32: "i < 32" by (simp add: possible_bit_def)
  have hi: "\<forall>j\<ge>k. \<not> bit x j" using lt by (simp add: unat_less_exp_iff)
  have "(\<exists>j. i \<le> j \<and> bit x j) = (i < k)"
  proof
    assume "\<exists>j. i \<le> j \<and> bit x j"
    then obtain j where "i \<le> j" "bit x j" by blast
    with hi show "i < k" by (meson not_less order_trans)
  next
    assume ik: "i < k"
    then have "\<not> unat x < 2 ^ (k - 1)" using least [of "k - 1"] by auto
    then obtain j where j: "k - 1 \<le> j" "bit x j"
      by (auto simp: unat_less_exp_iff)
    with hi have "j < k" by (meson not_less)
    with j ik show "\<exists>j. i \<le> j \<and> bit x j" by (intro exI [of _ j]) auto
  qed
  then show "bit (smear x) i = bit (mask k :: uint32) i"
    using i32 by (simp add: bit_smear bit_mask_iff)
qed

lemma roundUp_smear: "n \<noteq> 0 \<Longrightarrow> roundUpToPowerOf2 n = smear (n - 1) + 1"
  by (simp add: roundUpToPowerOf2_def smear_def Let_def)

lemma roundUp_valid:
  fixes n :: uint32
  assumes n0: "n \<noteq> 0" and le: "unat n \<le> 2 ^ 31"
  shows "\<exists>k\<le>31. unat (roundUpToPowerOf2 n) = 2 ^ k \<and> unat n \<le> 2 ^ k \<and>
           (\<forall>j. unat n \<le> 2 ^ j \<longrightarrow> k \<le> j)"
proof -
  define x where "x = n - 1"
  have ux: "unat x = unat n - 1" using n0 by (simp add: x_def unat_minus_one)
  have npos: "0 < unat n" using n0 by (simp add: unat_gt_0)
  have x31: "unat x < 2 ^ 31" using ux le npos by simp
  define k where "k = (LEAST k. unat x < 2 ^ k)"
  have lt: "unat x < 2 ^ k" unfolding k_def using x31 by (rule LeastI)
  have least: "k \<le> j" if "unat x < 2 ^ j" for j
    unfolding k_def using that by (rule Least_le)
  have k31: "k \<le> 31" using least [OF x31] .
  have "smear x = mask k" using lt least by (rule smear_eq_mask)
  then have "roundUpToPowerOf2 n = mask k + 1"
    using n0 by (simp add: roundUp_smear x_def)
  then have r: "roundUpToPowerOf2 n = 2 ^ k" by (simp add: mask_eq_decr_exp)
  have "unat (2 ^ k :: uint32) = 2 ^ k"
  proof -
    have "(2 ^ k :: uint32) = word_of_nat (2 ^ k)" by simp
    then have "unat (2 ^ k :: uint32) = 2 ^ k mod 2 ^ 32"
      by (simp only: unat_of_nat) simp
    moreover have "(2::nat) ^ k < 2 ^ 32"
      using k31 power_strict_increasing [of k 32 "2::nat"] by linarith
    ultimately show ?thesis by (simp only: mod_less)
  qed
  with r have "unat (roundUpToPowerOf2 n) = 2 ^ k" by simp
  moreover have "unat n \<le> 2 ^ k" using lt ux npos by simp
  moreover have "\<forall>j. unat n \<le> 2 ^ j \<longrightarrow> k \<le> j"
  proof (intro allI impI)
    fix j assume "unat n \<le> 2 ^ j"
    then have "unat x < 2 ^ j" using ux npos by simp
    then show "k \<le> j" by (rule least)
  qed
  ultimately show ?thesis using k31 by blast
qed


lemma roundUp_nonzero:
  fixes n :: uint32
  assumes "unat n \<le> 2 ^ 31"
  shows "roundUpToPowerOf2 n \<noteq> 0"
proof (cases "n = 0")
  case True
  then show ?thesis by (simp add: roundUpToPowerOf2_def)
next
  case False
  from roundUp_valid [OF False assms]
  obtain k where "unat (roundUpToPowerOf2 n) = 2 ^ k" by blast
  then have "0 < unat (roundUpToPowerOf2 n)" by simp
  then show ?thesis by (simp add: unat_gt_0)
qed

lemma createMap_fields:
  "length (shards (createMap ex h f options)) =
     unat (roundUpToPowerOf2 (ShardCount (opts (createMap ex h f options))))"
  "mask32 (createMap ex h f options) =
     roundUpToPowerOf2 (ShardCount (opts (createMap ex h f options))) - 1"
  "hasher (createMap ex h f options) = h"
  "dirty (createMap ex h f options) = False"
  by (simp_all add: createMap_def Let_def)

lemma createMap_shards_fit:
  assumes "unat (ShardCount (opts (createMap ex h f options))) \<le> 2 ^ 31"
  shows "shards_fit (createMap ex h f options)"
proof -
  define p where "p = roundUpToPowerOf2 (ShardCount (opts (createMap ex h f options)))"
  have "p \<noteq> 0" unfolding p_def using assms by (rule roundUp_nonzero)
  then have "Suc (unat (p - 1)) = unat p"
    by (simp add: unat_minus_one unat_gt_0)
  then show ?thesis
    by (simp add: shards_fit_def createMap_fields p_def)
qed

lemma getShard_in_bounds:
  assumes "shards_fit m"
  shows "getShard m key = Inr (unat (hasher m key AND mask32 m))"
    and "unat (hasher m key AND mask32 m) < length (shards m)"
proof -
  have "hasher m key AND mask32 m \<le> mask32 m" by (rule word_and_le1)
  then have "unat (hasher m key AND mask32 m) \<le> unat (mask32 m)"
    by (simp add: word_le_nat_alt)
  with assms show b: "unat (hasher m key AND mask32 m) < length (shards m)"
    by (simp add: shards_fit_def)
  then show "getShard m key = Inr (unat (hasher m key AND mask32 m))"
    by (simp add: getShard_def Let_def)
qed

lemma roundUp_zero: "roundUpToPowerOf2 0 = 1"
  by (simp add: roundUpToPowerOf2_def)

lemma createMap_valid:
  fixes n :: uint32
  assumes req: "ShardCount (opts (createMap ex h f options)) = n"
    and n0: "n \<noteq> 0" and le: "unat n \<le> 2 ^ 31"
  shows "\<exists>k. length (shards (createMap ex h f options)) = 2 ^ k \<and>
           unat n \<le> 2 ^ k \<and> (\<forall>j. unat n \<le> 2 ^ j \<longrightarrow> k \<le> j) \<and>
           unat (mask32 (createMap ex h f options)) + 1 = 2 ^ k"
proof -
  from roundUp_valid [OF n0 le] obtain k where
    k: "unat (roundUpToPowerOf2 n) = 2 ^ k" "unat n \<le> 2 ^ k"
      "\<forall>j. unat n \<le> 2 ^ j \<longrightarrow> k \<le> j" by blast
  have len: "length (shards (createMap ex h f options)) = 2 ^ k"
    using k(1) by (simp add: createMap_fields(1) req)
  have "shards_fit (createMap ex h f options)"
    using le by (intro createMap_shards_fit) (simp add: req)
  then have "unat (mask32 (createMap ex h f options)) + 1 = 2 ^ k"
    using len by (simp add: shards_fit_def)
  with len k(2,3) show ?thesis by blast
qed

lemma createMap_zero:
  assumes "ShardCount (opts (createMap ex h f options)) = 0"
  shows "length (shards (createMap ex h f options)) = 1"
    and "mask32 (createMap ex h f options) = 0"
  using assms by (simp_all add: createMap_fields roundUp_zero)

lemma roundUp_overflow: "roundUpToPowerOf2 0x80000001 = 0"
  by (simp add: roundUpToPowerOf2_def Let_def)

text \<open>
  C6.  The shard count is the least power of two that is at least the requested count,
  and \<open>mask + 1\<close> is that power, only for requested counts up to \<open>2 ^ 31\<close> (lemmas
  \<open>roundUp_valid\<close>, \<open>createMap_valid\<close>; a requested count of 0 gives one shard,
  lemma \<open>createMap_zero\<close>).  At the requested count \<open>0x80000001\<close> the increment
  wraps: the function returns 0, which is no power of two, the Map gets no shard at all
  and \<open>mask + 1\<close> is 0.
\<close>

theorem roundUp_overflow_no_shards:
  "roundUpToPowerOf2 0x80000001 = 0 \<and>
   length (shards (createMap ex h f [WithShardCount 0x80000001])) = 0 \<and>
   mask32 (createMap ex h f [WithShardCount 0x80000001]) + 1 = 0"
  by (simp add: createMap_def Let_def WithShardCount_def roundUp_overflow)

text \<open>
  C9.  A Map made by \<open>createMap\<close> with a requested count of at most \<open>2 ^ 31\<close> has
  \<open>mask + 1\<close> shards and every shard index is in bounds (lemmas
  \<open>createMap_shards_fit\<close> and \<open>getShard_in_bounds\<close>).  At the requested count
  \<open>0x80000001\<close> the Map has no shard and the mask is \<open>0xFFFFFFFF\<close>: the shard
  access of every key is out of bounds, so \<open>Get\<close> and \<open>Put\<close> panic.
\<close>

theorem getShard_out_of_bounds:
  "getShard (createMap ex h f [WithShardCount 0x80000001]) k =
     Inl (IndexOutOfRange (unat (h k)) 0) \<and>
   Get (createMap ex h f [WithShardCount 0x80000001]) k =
     Inl (IndexOutOfRange (unat (h k)) 0) \<and>
   Put (createMap ex h f [WithShardCount 0x80000001]) k v =
     Inl (IndexOutOfRange (unat (h k)) 0)"
  by (simp add: Get_def Put_def getShard_def createMap_def Let_def WithShardCount_def
      roundUp_overflow)

subsection \<open>Map operations, decoding, hashing\<close>

lemma getShard_Remove:
  "getShard (m\<lparr>shards := (shards m)[i := s], dirty := d\<rparr>) k = getShard m k"
  by (simp add: getShard_def Let_def)

text \<open>
  C7.  \<open>Remove\<close> of a key that is absent (\<open>Get\<close> finds nothing) leaves the dirty flag
  and every \<open>Get\<close> result as they were; \<open>Remove\<close> of a key that is present sets the
  dirty flag, and \<open>Get\<close> of that key then finds nothing.
\<close>

theorem Remove_semantics:
  "(Get m k = Inr None \<longrightarrow>
      (\<exists>m'. Remove m k = Inr m' \<and> IsDirty m' = IsDirty m \<and> (\<forall>k'. Get m' k' = Get m k')))
   \<and> (\<forall>v. Get m k = Inr (Some v) \<longrightarrow>
      (\<exists>m'. Remove m k = Inr m' \<and> IsDirty m' \<and> Get m' k = Inr None))"
proof (intro conjI impI allI)
  assume "Get m k = Inr None"
  then have "Remove m k = Inr m"
    by (auto simp: Get_def Remove_def Let_def split: sum.splits)
  then show "\<exists>m'. Remove m k = Inr m' \<and> IsDirty m' = IsDirty m \<and> (\<forall>k'. Get m' k' = Get m k')"
    by simp
next
  fix v
  assume g: "Get m k = Inr (Some v)"
  then obtain i where i: "getShard m k = Inr i" and v: "be_Get (shards m ! i) k = Some v"
    by (auto simp: Get_def split: sum.splits)
  have bound: "i < length (shards m)"
    using i by (auto simp: getShard_def Let_def split: if_splits)
  define m' where
    "m' = m\<lparr>shards := (shards m)[i := be_Remove (shards m ! i) k], dirty := True\<rparr>"
  have r: "Remove m k = Inr m'"
    using i v by (simp add: Remove_def Let_def m'_def)
  have "getShard m' k = Inr i"
    using i by (simp add: m'_def getShard_Remove)
  moreover have "be_Get (shards m' ! i) k = None"
    using bound by (simp add: m'_def be_Get_def be_Remove_def delete_conv')
  ultimately have "Get m' k = Inr None" by (simp add: Get_def)
  moreover have "IsDirty m'" by (simp add: m'_def IsDirty_def)
  ultimately show "\<exists>m'. Remove m k = Inr m' \<and> IsDirty m' \<and> Get m' k = Inr None"
    using r by blast
qed

text \<open>
  C2.  When the codec's unmarshal function fails on the bytes, \<open>UnmarshalWith\<close> returns
  that error and the Map it was given, unchanged (no \<open>Clear\<close>, the same entries, the
  same dirty flag); and \<open>LoadFromFile\<close> on a file that is not empty and has these bytes
  returns the error, wrapped, and the unchanged Map, having only read the file.
\<close>

theorem failed_decode_leaves_Map:
  "UnmarshalFunc s = Some f \<and> f data = Inl err \<longrightarrow>
     UnmarshalWith m data (Some s) = Inr (m, Some err) \<and>
     (Serializer (opts m) = Some s \<and> filename \<noteq> '''' \<and> files w filename = Some data \<and>
      \<not> faulty w filename \<and> data \<noteq> [] \<longrightarrow>
        LoadFromFile fp m w filename =
          Inr (m, w\<lparr>calls := calls w @ [Stat filename, ReadFile filename]\<rparr>,
               Some (Wrapf (''failed to unmarshal data from '' @ filename) err)))"
proof (intro impI conjI)
  assume a: "UnmarshalFunc s = Some f \<and> f data = Inl err"
  then show u: "UnmarshalWith m data (Some s) = Inr (m, Some err)"
    by (simp add: UnmarshalWith_def)
  assume b: "Serializer (opts m) = Some s \<and> filename \<noteq> '''' \<and> files w filename = Some data \<and>
      \<not> faulty w filename \<and> data \<noteq> []"
  with a u show "LoadFromFile fp m w filename =
          Inr (m, w\<lparr>calls := calls w @ [Stat filename, ReadFile filename]\<rparr>,
               Some (Wrapf (''failed to unmarshal data from '' @ filename) err))"
    by (simp add: LoadFromFile_def os_Stat_def os_ReadFile_def os_IsNotExist_def Let_def)
qed

lemma NewHashMap_opts:
  "opts (NewHashMap ex h options) =
     foldl (\<lambda>acc option. option acc)
       \<lparr>ShardCount = word_of_int (NumCPU ex * 16), Serializer = Some (JsonSerializer ex)\<rparr>
       options"
  by (simp add: NewHashMap_def createMap_def Let_def)

text \<open>
  C3.  On a Map configured with the gob codec, whose \<open>IsJSON\<close> is false,
  \<open>getJSONSerializer\<close> returns the gob codec itself and not the JSON fallback: the type
  assertion holds for every \<^verbatim>\<open>*SerializerFunc\<close>.  So \<open>MarshalJSON\<close> encodes with gob.
\<close>

theorem gob_used_as_JSON:
  "getJSONSerializer ex (NewHashMap ex h [WithSerializer (Some (GobSerializer ex))]) =
     GobSerializer ex \<and>
   \<not> IsJSON (GobSerializer ex) \<and>
   MarshalJSON ex (NewHashMap ex h [WithSerializer (Some (GobSerializer ex))]) =
     MarshalWith (NewHashMap ex h [WithSerializer (Some (GobSerializer ex))])
       (Some (GobSerializer ex))"
  by (simp add: getJSONSerializer_def MarshalJSON_def NewHashMap_opts WithSerializer_def
      implements_JSONCompatible_def IsJSON_def GobSerializer_def)

text \<open>
  C8.  The hash of a NaN is \<open>0x7FFFFFFF\<close>; the hash of \<open>0.0\<close> and of \<open>-0.0\<close> is 0;
  the hash of any other value is the integer mixer applied to its bit pattern; and two
  keys that are equal (Go's \<^verbatim>\<open>==\<close>) have the same hash.  For \<^verbatim>\<open>float32\<close> and
  \<^verbatim>\<open>float64\<close>.
\<close>

theorem float_hash_cases:
  "(float32_IsNaN a \<longrightarrow> float32Hash a = 0x7FFFFFFF) \<and>
   float32Hash 0 = 0 \<and> float32Hash 0x80000000 = 0 \<and>
   (\<not> float32_IsNaN a \<and> \<not> float32_eq_zero a \<longrightarrow> float32Hash a = uint32Hash a) \<and>
   (float32_eq a b \<longrightarrow> float32Hash a = float32Hash b) \<and>
   (float64_IsNaN c \<longrightarrow> float64Hash c = 0x7FFFFFFF) \<and>
   float64Hash 0 = 0 \<and> float64Hash 0x8000000000000000 = 0 \<and>
   (\<not> float64_IsNaN c \<and> \<not> float64_eq_zero c \<longrightarrow> float64Hash c = uint64Hash c) \<and>
   (float64_eq c d \<longrightarrow> float64Hash c = float64Hash d)"
proof -
  have z32: "float32Hash 0 = 0" "float32Hash 0x80000000 = 0"
    by (simp_all add: float32Hash_def float32_IsNaN_def float32_eq_zero_def)
  have z64: "float64Hash 0 = 0" "float64Hash 0x8000000000000000 = 0"
    by (simp_all add: float64Hash_def float64_IsNaN_def float64_eq_zero_def)
  have e32: "float32_eq a b \<longrightarrow> float32Hash a = float32Hash b"
    by (auto simp: float32_eq_def float32Hash_def)
  have e64: "float64_eq c d \<longrightarrow> float64Hash c = float64Hash d"
    by (auto simp: float64_eq_def float64Hash_def)
  show ?thesis
    using z32 z64 e32 e64 by (simp add: float32Hash_def float64Hash_def)
qed

subsection \<open>Persistence\<close>

lemma config_errors_without_effect:
  "SaveToFile fp m w '''' = Inr (m, w, Some (Errorf ''filename cannot be empty''))"
  "LoadFromFile fp m w '''' = Inr (m, w, Some (Errorf ''filename cannot be empty''))"
  "filename \<noteq> '''' \<Longrightarrow> Serializer (opts m) = None \<Longrightarrow>
     LoadFromFile fp m w filename =
       Inr (m, w, Some (Errorf ''no serializer configured for unmarshaling''))"
  "filename \<noteq> '''' \<Longrightarrow> Serializer (opts m) = Some s \<Longrightarrow> UnmarshalFunc s = None \<Longrightarrow>
     LoadFromFile fp m w filename =
       Inr (m, w, Some (Errorf ''no serializer configured for unmarshaling''))"
  "filename \<noteq> '''' \<Longrightarrow> IsAbs fp filename \<Longrightarrow> Serializer (opts m) = None \<Longrightarrow>
     SaveToFile fp m w filename =
       Inr (m, w, Some (Errorf ''no serializer configured for marshaling''))"
  by (simp_all add: SaveToFile_def LoadFromFile_def)

lemma example_Dir: "Dir example_filepath ''data/out.json'' = ''data''"
  "\<not> IsAbs example_filepath ''data/out.json''"
  by (simp_all add: example_filepath_def)

text \<open>
  C5.  An empty path makes both operations return at once, and so does a missing codec
  for \<open>LoadFromFile\<close> (lemma \<open>config_errors_without_effect\<close>).  \<open>SaveToFile\<close>
  tests the codec only after the directory step: with no codec and the relative path
  \<^verbatim>\<open>data/out.json\<close>, it calls \<^verbatim>\<open>os.MkdirAll("data")\<close>, the directory exists
  afterwards, and only then the error is returned.
\<close>

theorem SaveToFile_mkdir_before_codec_check:
  "SaveToFile example_filepath (NewHashMap ex h [WithSerializer None]) example_FS
     ''data/out.json'' =
   Inr (NewHashMap ex h [WithSerializer None],
        example_FS\<lparr>dirs := (dirs example_FS)(''data'' := True), calls := [MkdirAll ''data'']\<rparr>,
        Some (Errorf ''no serializer configured for marshaling'')) \<and>
   \<not> dirs example_FS ''data''"
  by (simp add: SaveToFile_def example_Dir os_MkdirAll_def Let_def NewHashMap_opts
      WithSerializer_def) (simp add: example_FS_def)








subsection \<open>The serialization round trip\<close>

lemma slot_in_bounds: "shards_fit m \<Longrightarrow> slot m k < length (shards m)"
  unfolding slot_def by (rule getShard_in_bounds(2))

lemma getShard_slot: "shards_fit m \<Longrightarrow> getShard m k = Inr (slot m k)"
  unfolding slot_def by (rule getShard_in_bounds(1))

lemma routed_Get: "routed m \<Longrightarrow> Get m k = Inr (lookup m k)"
  by (simp add: routed_def Get_def getShard_slot lookup_def be_Get_def)

lemma routed_Put:
  assumes "routed m"
  shows "\<exists>m'. Put m k v = Inr m' \<and> routed m' \<and> lookup m' = (lookup m)(k \<mapsto> v) \<and>
           hasher m' = hasher m \<and> mask32 m' = mask32 m"
proof -
  define i where "i = slot m k"
  define m' where
    "m' = m\<lparr>shards := (shards m)[i := be_Put (shards m ! i) k v], dirty := True\<rparr>"
  from assms have fit: "shards_fit m" by (simp add: routed_def)
  have i: "i < length (shards m)" unfolding i_def using fit by (rule slot_in_bounds)
  have put: "Put m k v = Inr m'"
    by (simp add: Put_def getShard_slot [OF fit] m'_def i_def)
  have slot': "slot m' = slot m" by (rule ext) (simp add: slot_def m'_def)
  have fit': "shards_fit m'" using fit by (simp add: shards_fit_def m'_def)
  have sh: "shards m' ! j = (if j = i then AList.update k v (shards m ! i) else shards m ! j)"
    if "j < length (shards m)" for j
    using that by (simp add: m'_def be_Put_def nth_list_update)
  have "routed m'"
    unfolding routed_def
  proof (intro conjI allI impI)
    show "shards_fit m'" by (rule fit')
  next
    fix j assume j: "j < length (shards m')"
    then have j': "j < length (shards m)" by (simp add: m'_def)
    from assms j' have old: "distinct (map fst (shards m ! j))"
      "\<forall>k\<in>fst ` set (shards m ! j). slot m k = j" by (simp_all add: routed_def)
    show "distinct (map fst (shards m' ! j))"
      using old(1) assms i by (auto simp: sh [OF j'] distinct_update routed_def)
    show "\<forall>k\<in>fst ` set (shards m' ! j). slot m' k = j"
    proof (cases "j = i")
      case True
      have "fst ` set (shards m' ! j) = {k} \<union> fst ` set (shards m ! i)"
        using True sh [OF j'] by (simp add: dom_update)
      with old(2) True show ?thesis by (auto simp: slot' i_def)
    next
      case False
      with old(2) show ?thesis by (simp add: sh [OF j'] slot')
    qed
  qed
  moreover have "lookup m' = (lookup m)(k \<mapsto> v)"
  proof (rule ext)
    fix k'
    have b: "slot m k' < length (shards m)" using fit by (rule slot_in_bounds)
    show "lookup m' k' = ((lookup m)(k \<mapsto> v)) k'"
    proof (cases "slot m k' = i")
      case True
      then show ?thesis
        using b by (simp add: lookup_def slot' sh update_conv')
    next
      case False
      then have "k' \<noteq> k" by (auto simp: i_def)
      with False b show ?thesis by (simp add: lookup_def slot' sh)
    qed
  qed
  moreover have "hasher m' = hasher m" "mask32 m' = mask32 m" by (simp_all add: m'_def)
  ultimately show ?thesis using put by blast
qed

lemma map_add_upd_left: "(f(k \<mapsto> v)) ++ g = f ++ ([k \<mapsto> v] ++ g)"
  by (rule ext) (simp add: map_add_def split: option.splits)

lemma routed_Put_loop:
  assumes "routed m"
  shows "\<exists>m'. Put_loop m ts = Inr m' \<and> routed m' \<and>
           lookup m' = lookup m ++ map_of (rev (map pair_of ts)) \<and>
           hasher m' = hasher m \<and> mask32 m' = mask32 m"
  using assms
proof (induction ts arbitrary: m)
  case Nil
  then show ?case by simp
next
  case (Cons t ts)
  from routed_Put [OF Cons.prems, of "Key t" "Value t"] obtain m1 where
    m1: "Put m (Key t) (Value t) = Inr m1" "routed m1"
      "lookup m1 = (lookup m)(Key t \<mapsto> Value t)"
      "hasher m1 = hasher m" "mask32 m1 = mask32 m" by blast
  from Cons.IH [OF m1(2)] obtain m' where
    m': "Put_loop m1 ts = Inr m'" "routed m'"
      "lookup m' = lookup m1 ++ map_of (rev (map pair_of ts))"
      "hasher m' = hasher m1" "mask32 m' = mask32 m1" by blast
  have "Put_loop m (t # ts) = Inr m'" using m1(1) m'(1) by simp
  moreover have "lookup m' = lookup m ++ map_of (rev (map pair_of (t # ts)))"
  proof -
    have "map_of (rev (map pair_of (t # ts))) =
        [Key t \<mapsto> Value t] ++ map_of (rev (map pair_of ts))"
      by (simp add: pair_of_def)
    moreover have "lookup m' = lookup m ++ ([Key t \<mapsto> Value t] ++ map_of (rev (map pair_of ts)))"
      unfolding m'(3) m1(3) by (rule map_add_upd_left)
    ultimately show ?thesis by simp
  qed
  ultimately show ?case using m'(2,4,5) m1(4,5) by auto
qed

lemma concat_routed:
  fixes ss :: "('k \<times> 'v) list list" and g :: "'k \<Rightarrow> nat"
  assumes "\<forall>i<length ss. distinct (map fst (ss ! i)) \<and> (\<forall>k\<in>fst ` set (ss ! i). g k = i)"
  shows "distinct (map fst (concat ss)) \<and>
         (\<forall>k. map_of (concat ss) k = (if g k < length ss then map_of (ss ! g k) k else None))"
  using assms
proof (induction ss rule: rev_induct)
  case Nil
  show ?case by simp
next
  case (snoc s ss)
  have prem: "\<forall>i<length ss. distinct (map fst (ss ! i)) \<and> (\<forall>k\<in>fst ` set (ss ! i). g k = i)"
  proof (intro allI impI)
    fix i assume i: "i < length ss"
    with snoc.prems have "distinct (map fst ((ss @ [s]) ! i)) \<and>
        (\<forall>k\<in>fst ` set ((ss @ [s]) ! i). g k = i)" by simp
    with i show "distinct (map fst (ss ! i)) \<and> (\<forall>k\<in>fst ` set (ss ! i). g k = i)"
      by (simp add: nth_append)
  qed
  from snoc.IH [OF prem] have
    d: "distinct (map fst (concat ss))" and
    l: "\<And>k. map_of (concat ss) k = (if g k < length ss then map_of (ss ! g k) k else None)"
    by simp_all
  from snoc.prems have last: "distinct (map fst s)" "\<forall>k\<in>fst ` set s. g k = length ss"
    using nth_append_length [of ss s "[]"] by (auto simp: all_conj_distrib)
  have old_keys: "g k < length ss" if "k \<in> fst ` set (concat ss)" for k
  proof (rule ccontr)
    assume "\<not> g k < length ss"
    then have "map_of (concat ss) k = None" by (simp add: l)
    with that show False by (simp add: map_of_eq_None_iff)
  qed
  have disj: "fst ` set (concat ss) \<inter> fst ` set s = {}"
  proof (rule ccontr)
    assume "fst ` set (concat ss) \<inter> fst ` set s \<noteq> {}"
    then obtain k where "k \<in> fst ` set (concat ss)" "k \<in> fst ` set s" by blast
    with old_keys [of k] last(2) show False by auto
  qed
  have "distinct (map fst (concat (ss @ [s])))"
    using d last(1) disj by simp
  moreover have "map_of (concat (ss @ [s])) k =
      (if g k < length (ss @ [s]) then map_of ((ss @ [s]) ! g k) k else None)" for k
  proof (cases "g k < length ss")
    case True
    then have "k \<notin> fst ` set s" using last(2) by auto
    then have "map_of s k = None" by (simp add: map_of_eq_None_iff)
    with True show ?thesis by (simp add: l nth_append map_add_def split: option.splits)
  next
    case False
    then have none: "map_of (concat ss) k = None" by (simp add: l)
    show ?thesis
    proof (cases "g k = length ss")
      case True
      with none show ?thesis by (simp add: map_add_def split: option.splits)
    next
      case False
      then have "k \<notin> fst ` set s" using last(2) by auto
      then have "map_of s k = None" by (simp add: map_of_eq_None_iff)
      with none False \<open>\<not> g k < length ss\<close> show ?thesis by (simp add: map_add_def)
    qed
  qed
  ultimately show ?case by blast
qed

lemma routed_entries:
  assumes "routed m"
  shows "distinct (map fst (entries m))" and "map_of (entries m) = lookup m"
proof -
  from assms have fit: "shards_fit m" and
    sh: "\<forall>i<length (shards m). distinct (map fst (shards m ! i)) \<and>
          (\<forall>k\<in>fst ` set (shards m ! i). slot m k = i)"
    by (simp_all add: routed_def)
  from concat_routed [of "shards m" "slot m", OF sh]
  show "distinct (map fst (entries m))" by (simp add: entries_def)
  show "map_of (entries m) = lookup m"
  proof (rule ext)
    fix k
    from concat_routed [of "shards m" "slot m", OF sh] slot_in_bounds [OF fit, of k]
    show "map_of (entries m) k = lookup m k" by (simp add: entries_def lookup_def)
  qed
qed

lemma Size_entries: "Size m = int (length (entries m))"
proof -
  have "Size_loop ss 0 = int (length (concat ss))" for ss :: "('k, 'v) shard list"
  proof (induction ss)
    case Nil
    show ?case by simp
  next
    case (Cons s ss)
    have "Size_loop (s # ss) 0 = be_Size s + Size_loop ss 0"
      using Size_loop_acc [of ss "be_Size s"] by simp
    with Cons.IH show ?case by (simp add: be_Size_def)
  qed
  then show ?thesis by (simp add: Size_def entries_def)
qed

lemma routed_Size: "routed m \<Longrightarrow> Size m = int (card (dom (lookup m)))"
proof -
  assume r: "routed m"
  have "card (dom (lookup m)) = card (set (map fst (entries m)))"
    using routed_entries(2) [OF r] by (simp add: dom_map_of_conv_image_fst [symmetric])
  also have "\<dots> = length (map fst (entries m))"
    using routed_entries(1) [OF r] by (rule distinct_card)
  finally show ?thesis by (simp add: Size_entries)
qed

lemma be_Get_of_key: "key \<in> set (be_Keys s) \<Longrightarrow> be_Get s key \<noteq> None"
  by (simp add: be_Keys_def be_Get_def map_of_eq_None_iff)

lemma shard_items_pairs:
  assumes "distinct (map fst s)"
  shows "map pair_of (shard_items s) = s"
proof -
  have "(fst p, the (map_of s (fst p))) = p" if "p \<in> set s" for p
  proof -
    from that have "(fst p, snd p) \<in> set s" by simp
    with assms have "map_of s (fst p) = Some (snd p)" by (rule map_of_is_SomeI)
    then show ?thesis by simp
  qed
  then have "map (\<lambda>p. (fst p, the (map_of s (fst p)))) s = map (\<lambda>p. p) s"
    by (intro map_cong) simp_all
  then show ?thesis
    by (simp add: shard_items_def be_Keys_def be_Get_def pair_of_def comp_def)
qed

lemma MarshalWith_loop_concat:
  "MarshalWith_loop ss acc = acc @ concat (map shard_items ss)"
  by (induction ss arbitrary: acc) simp_all

lemma routed_items:
  assumes "routed m"
  shows "map pair_of (MarshalWith_loop (shards m) []) = entries m"
proof -
  have "map pair_of (concat (map shard_items ss)) = concat ss"
    if "\<forall>s\<in>set ss. distinct (map fst s)" for ss :: "('k, 'v) shard list"
    using that by (induction ss) (simp_all add: shard_items_pairs)
  moreover have "\<forall>s\<in>set (shards m). distinct (map fst s)"
    using assms by (auto simp: routed_def in_set_conv_nth)
  ultimately show ?thesis by (simp add: MarshalWith_loop_concat entries_def)
qed

lemma map_of_rev_distinct:
  assumes "distinct (map fst xs)"
  shows "map_of (rev xs) = map_of xs"
proof (rule ext)
  fix k
  have d: "distinct (map fst (rev xs))" using assms by (simp add: rev_map [symmetric])
  show "map_of (rev xs) k = map_of xs k"
  proof (cases "map_of xs k")
    case None
    then have "k \<notin> fst ` set xs" by (simp add: map_of_eq_None_iff)
    then have "map_of (rev xs) k = None" by (simp add: map_of_eq_None_iff)
    with None show ?thesis by simp
  next
    case (Some v)
    then have "(k, v) \<in> set xs" by (rule map_of_SomeD)
    then have "(k, v) \<in> set (rev xs)" by simp
    with d have "map_of (rev xs) k = Some v" by (rule map_of_is_SomeI)
    with Some show ?thesis by simp
  qed
qed

lemma createMap_shards_fit_nonempty:
  assumes "shards (createMap ex h f options) \<noteq> []"
  shows "shards_fit (createMap ex h f options)"
proof -
  define p where "p = roundUpToPowerOf2 (ShardCount (opts (createMap ex h f options)))"
  have "length (shards (createMap ex h f options)) = unat p"
    by (simp add: createMap_fields p_def)
  with assms have "p \<noteq> 0" by auto
  then have "Suc (unat (p - 1)) = unat p"
    by (simp add: unat_minus_one unat_gt_0)
  then show ?thesis
    by (simp add: shards_fit_def createMap_fields p_def)
qed

lemma NewHashMap_shards_empty:
  "\<forall>i<length (shards (NewHashMap ex h options)). shards (NewHashMap ex h options) ! i = []"
  by (simp add: NewHashMap_def createMap_def Let_def be_New_def)

lemma routed_all_empty:
  assumes "shards_fit m" and "\<forall>i<length (shards m). shards m ! i = []"
  shows "routed m" and "lookup m = Map.empty"
proof -
  show "routed m" using assms by (simp add: routed_def)
  show "lookup m = Map.empty"
  proof (rule ext)
    fix k
    from assms slot_in_bounds [OF assms(1), of k] show "lookup m k = None"
      by (simp add: lookup_def)
  qed
qed

lemma Clear_fields:
  "length (shards (Clear m)) = length (shards m)"
  "\<forall>i<length (shards (Clear m)). shards (Clear m) ! i = []"
  "shards_fit (Clear m) = shards_fit m"
  by (simp_all add: Clear_def be_Clear_def shards_fit_def)

lemma Size_all_empty:
  assumes "\<forall>i<length (shards m). shards m ! i = []"
  shows "Size m = 0"
proof -
  have "concat ss = []" if "\<forall>i<length ss. ss ! i = []" for ss :: "('k, 'v) shard list"
    using that by (auto simp: in_set_conv_nth)
  from this [OF assms] show ?thesis by (simp add: Size_entries entries_def)
qed

lemma Put_loop_no_shards:
  assumes "shards m = []" and "Put_loop m ts = Inr m'"
  shows "ts = []"
proof (cases ts)
  case Nil
  then show ?thesis .
next
  case (Cons t rest)
  have "Put m (Key t) (Value t) = Inl (IndexOutOfRange (unat (hasher m (Key t) AND mask32 m)) 0)"
    using assms(1) by (simp add: Put_def getShard_def Let_def)
  with assms(2) Cons show ?thesis by simp
qed

lemma dirty_irrelevant:
  "routed (m\<lparr>dirty := d\<rparr>) = routed m"
  "lookup (m\<lparr>dirty := d\<rparr>) = lookup m"
  "Size (m\<lparr>dirty := d\<rparr>) = Size m"
  by (simp_all add: routed_def lookup_def Size_def shards_fit_def slot_def fun_eq_iff)

lemma Put_loop_returns:
  assumes "unat (ShardCount (opts (NewHashMap ex h options))) \<le> 2 ^ 31"
  shows "\<exists>m. Put_loop (NewHashMap ex h options) kvs = Inr m"
proof -
  have "shards_fit (NewHashMap ex h options)"
    using assms unfolding NewHashMap_def by (rule createMap_shards_fit)
  then have "routed (NewHashMap ex h options)"
    using NewHashMap_shards_empty by (rule routed_all_empty(1))
  from routed_Put_loop [OF this, of kvs] show ?thesis by blast
qed

text \<open>
  The round trip.  Entries are put into a new Map, the Map is serialized with
  \<open>MarshalWith\<close>, and the bytes are deserialized with \<open>UnmarshalWith\<close>, by the same
  codec, into a fresh Map made with the same options, or with any options whose shard
  count is at most \<open>2 ^ 31\<close>.  The codec is an inverse pair: unmarshal gives back what
  marshal was given.  Then \<open>UnmarshalWith\<close> returns nil, and the fresh Map has the
  \<open>Size\<close> of the original and the same \<open>Get\<close> result for every key that was put.
\<close>

theorem roundtrip:
  assumes enc: "MarshalFunc c = Some enc" and dec: "UnmarshalFunc c = Some dec"
    and inverse: "\<forall>d b. enc d = Inr b \<longrightarrow> dec b = Inr d"
    and puts: "Put_loop (NewHashMap ex h options) kvs = Inr m"
    and ser: "MarshalWith m (Some c) = Inr (Inr data)"
    and fresh: "options' = options \<or>
                unat (ShardCount (opts (NewHashMap ex h options'))) \<le> 2 ^ 31"
  shows "\<exists>m2. UnmarshalWith (NewHashMap ex h options') data (Some c) = Inr (m2, None) \<and>
           Size m2 = Size m \<and> (\<forall>t\<in>set kvs. Get m2 (Key t) = Get m (Key t))"
proof -
  define m0 where "m0 = NewHashMap ex h options"
  define f0 where "f0 = NewHashMap ex h options'"
  define items where "items = MarshalWith_loop (shards m) []"
  from ser enc have "enc \<lparr>Items = items\<rparr> = Inr data"
    by (simp add: MarshalWith_def Let_def items_def)
  with inverse have decoded: "dec data = Inr \<lparr>Items = items\<rparr>" by blast
  have un: "UnmarshalWith f0 data (Some c) =
      (case Put_loop (Clear f0) items of
         Inl p \<Rightarrow> Inl p
       | Inr m' \<Rightarrow> Inr (m'\<lparr>dirty := False\<rparr>, None))"
    by (simp add: UnmarshalWith_def dec decoded)
  show ?thesis
  proof (cases "shards m0 = []")
    case True
    then have "shards (NewHashMap ex h options) = []" by (simp add: m0_def)
    from this puts have "kvs = []" by (rule Put_loop_no_shards)
    with puts have m: "m = m0" by (simp add: m0_def)
    with True have "items = []" by (simp add: items_def)
    with un have "UnmarshalWith f0 data (Some c) = Inr ((Clear f0)\<lparr>dirty := False\<rparr>, None)"
      by simp
    moreover have "Size ((Clear f0)\<lparr>dirty := False\<rparr>) = 0"
      using Size_all_empty [OF Clear_fields(2), of f0] by (simp add: dirty_irrelevant)
    moreover have "Size m = 0" using True m by (simp add: Size_def)
    ultimately show ?thesis using \<open>kvs = []\<close> by (simp add: f0_def)
  next
    case False
    then have fit0: "shards_fit m0"
      unfolding m0_def NewHashMap_def by (rule createMap_shards_fit_nonempty)
    have "routed m0"
      using fit0 NewHashMap_shards_empty [of ex h options]
      unfolding m0_def by (rule routed_all_empty(1))
    from routed_Put_loop [OF this, of kvs] puts have rm: "routed m"
      by (auto simp: m0_def)
    have fitf: "shards_fit f0"
    proof (cases "options' = options")
      case True
      with fit0 show ?thesis by (simp add: f0_def m0_def)
    next
      case False
      with fresh have "unat (ShardCount (opts (NewHashMap ex h options'))) \<le> 2 ^ 31" by simp
      then show ?thesis unfolding f0_def NewHashMap_def by (rule createMap_shards_fit)
    qed
    then have fitc: "shards_fit (Clear f0)" by (simp add: Clear_fields)
    note cleared = routed_all_empty [OF fitc Clear_fields(2)]
    from routed_Put_loop [OF cleared(1), of items] obtain m' where
      m': "Put_loop (Clear f0) items = Inr m'" "routed m'"
        "lookup m' = lookup (Clear f0) ++ map_of (rev (map pair_of items))" by blast
    have "map pair_of items = entries m" unfolding items_def using rm by (rule routed_items)
    then have "lookup m' = map_of (rev (entries m))" by (simp add: m'(3) cleared(2))
    also have "\<dots> = map_of (entries m)"
      using routed_entries(1) [OF rm] by (rule map_of_rev_distinct)
    also have "\<dots> = lookup m" using rm by (rule routed_entries(2))
    finally have same: "lookup m' = lookup m" .
    define m2 where "m2 = m'\<lparr>dirty := False\<rparr>"
    have r2: "routed m2" "lookup m2 = lookup m"
      using m'(2) same by (simp_all add: m2_def dirty_irrelevant)
    have "UnmarshalWith f0 data (Some c) = Inr (m2, None)"
      using un m'(1) by (simp add: m2_def)
    moreover have "Size m2 = Size m"
      using r2 rm by (simp add: routed_Size)
    moreover have "Get m2 k = Get m k" for k
      using r2 rm by (simp add: routed_Get)
    ultimately show ?thesis by (auto simp: f0_def)
  qed
qed

subsection \<open>The concrete instance\<close>

lemma example_hashes:
  "uint8Hasher_Hash 7 AND 1 = 1" "uint8Hasher_Hash 2 AND 1 = 0" "uint8Hasher_Hash 9 AND 1 = 1"
  by (simp_all add: uint8Hasher_Hash_def uint32Hash_def Let_def)

lemma example_new_eq:
  "example_new =
     \<lparr>shards = [[], []], mask32 = 1, dirty = False, hasher = uint8Hasher_Hash,
      opts = \<lparr>ShardCount = 2, Serializer = Some (JsonSerializer example_extern)\<rparr>\<rparr>"
  by (simp add: example_new_def NewHashMap_def createMap_def roundUpToPowerOf2_def Let_def
      WithShardCount_def be_New_def example_extern_def upt_rec)

lemma example_Map_eq:
  "example_Map =
     \<lparr>shards = [[(2, 20)], [(7, 42)]], mask32 = 1, dirty = True, hasher = uint8Hasher_Hash,
      opts = \<lparr>ShardCount = 2, Serializer = Some (JsonSerializer example_extern)\<rparr>\<rparr>"
  by (simp add: example_Map_def example_new_eq)

lemma example_getShard:
  "getShard example_Map 7 = Inr 1" "getShard example_Map 2 = Inr 0"
  "getShard example_Map 9 = Inr 1"
  by (simp_all add: getShard_def example_Map_eq example_hashes)

lemma example_Map_reached:
  "Put_loop example_new [\<lparr>Key = 7, Value = 42\<rparr>, \<lparr>Key = 2, Value = 20\<rparr>] = Inr example_Map"
  by (simp add: Put_def getShard_def example_new_eq example_Map_eq example_hashes be_Put_def)

lemma example_Get:
  "Get example_Map 7 = Inr (Some 42)" "Get example_Map 9 = Inr None"
  by (simp_all add: Get_def example_getShard be_Get_def) (simp_all add: example_Map_eq)

theorem Remove_semantics_witness:
  "Get example_Map 9 = Inr None \<and>
   (\<exists>m'. Remove example_Map 9 = Inr m' \<and> IsDirty m' = IsDirty example_Map \<and>
      Get m' 7 = Get example_Map 7) \<and>
   Get example_Map 7 = Inr (Some 42) \<and>
   (\<exists>m'. Remove example_Map 7 = Inr m' \<and> IsDirty m' \<and> Get m' 7 = Inr None)"
proof -
  from Remove_semantics [of example_Map 9] example_Get(2)
  obtain m1 where m1: "Remove example_Map 9 = Inr m1" "IsDirty m1 = IsDirty example_Map"
    "\<forall>k'. Get m1 k' = Get example_Map k'" by blast
  from Remove_semantics [of example_Map 7] example_Get(1)
  obtain m2 where m2: "Remove example_Map 7 = Inr m2" "IsDirty m2" "Get m2 7 = Inr None"
    by blast
  from m1 have "\<exists>m'. Remove example_Map 9 = Inr m' \<and> IsDirty m' = IsDirty example_Map \<and>
      Get m' 7 = Get example_Map 7" by simp
  moreover from m2 have
    "\<exists>m'. Remove example_Map 7 = Inr m' \<and> IsDirty m' \<and> Get m' 7 = Inr None" by simp
  ultimately show ?thesis using example_Get by simp
qed

theorem float_hash_cases_witness:
  "float32_IsNaN 0x7FC00000 \<and> float32Hash 0x7FC00000 = 0x7FFFFFFF \<and>
   \<not> float32_IsNaN 0x3F800000 \<and> \<not> float32_eq_zero 0x3F800000 \<and>
   float32Hash 0x3F800000 = uint32Hash 0x3F800000 \<and>
   float32_eq 0 0x80000000 \<and> float32Hash 0 = float32Hash 0x80000000 \<and>
   float64_IsNaN 0x7FF8000000000000 \<and> float64Hash 0x7FF8000000000000 = 0x7FFFFFFF \<and>
   \<not> float64_IsNaN 0x3FF0000000000000 \<and> \<not> float64_eq_zero 0x3FF0000000000000 \<and>
   float64Hash 0x3FF0000000000000 = uint64Hash 0x3FF0000000000000 \<and>
   float64_eq 0 0x8000000000000000 \<and> float64Hash 0 = float64Hash 0x8000000000000000"
proof -
  note nan = float_hash_cases [of "0x7FC00000" 0 "0x7FF8000000000000" 0]
  note one = float_hash_cases [of "0x3F800000" 0 "0x3FF0000000000000" 0]
  note zero = float_hash_cases [of 0 "0x80000000" 0 "0x8000000000000000"]
  have n32: "float32_IsNaN 0x7FC00000" by (simp add: float32_IsNaN_def)
  have r32: "\<not> float32_IsNaN 0x3F800000 \<and> \<not> float32_eq_zero 0x3F800000"
    by (simp add: float32_IsNaN_def float32_eq_zero_def)
  have e32: "float32_eq 0 0x80000000"
    by (simp add: float32_eq_def float32_IsNaN_def float32_eq_zero_def)
  have n64: "float64_IsNaN 0x7FF8000000000000" by (simp add: float64_IsNaN_def)
  have r64: "\<not> float64_IsNaN 0x3FF0000000000000 \<and> \<not> float64_eq_zero 0x3FF0000000000000"
    by (simp add: float64_IsNaN_def float64_eq_zero_def)
  have e64: "float64_eq 0 0x8000000000000000"
    by (simp add: float64_eq_def float64_IsNaN_def float64_eq_zero_def)
  have c0: "float32Hash 0x7FC00000 = 0x7FFFFFFF"
    using nan [THEN conjunct1] n32 by (rule mp)
  have c3: "float32Hash 0x3F800000 = uint32Hash 0x3F800000"
    using one [THEN conjunct2, THEN conjunct2, THEN conjunct2, THEN conjunct1] r32 by (rule mp)
  have c4: "float32Hash 0 = float32Hash 0x80000000"
    using zero [THEN conjunct2, THEN conjunct2, THEN conjunct2, THEN conjunct2, THEN conjunct1]
      e32 by (rule mp)
  have c5: "float64Hash 0x7FF8000000000000 = 0x7FFFFFFF"
    using nan [THEN conjunct2, THEN conjunct2, THEN conjunct2, THEN conjunct2, THEN conjunct2,
      THEN conjunct1] n64 by (rule mp)
  have c8: "float64Hash 0x3FF0000000000000 = uint64Hash 0x3FF0000000000000"
    using one [THEN conjunct2, THEN conjunct2, THEN conjunct2, THEN conjunct2, THEN conjunct2,
      THEN conjunct2, THEN conjunct2, THEN conjunct2, THEN conjunct1] r64 by (rule mp)
  have c9: "float64Hash 0 = float64Hash 0x8000000000000000"
    using zero [THEN conjunct2, THEN conjunct2, THEN conjunct2, THEN conjunct2, THEN conjunct2,
      THEN conjunct2, THEN conjunct2, THEN conjunct2, THEN conjunct2] e64 by (rule mp)
  from n32 c0 r32 c3 e32 c4 n64 c5 r64 c8 e64 c9 show ?thesis
    by (intro conjI) (erule conjunct1 conjunct2 | assumption)+
qed

lemma pairs_file: "pairs_Unmarshal [1] = Inl (CodecError ''unexpected end of input'')"
  by (simp add: pairs_Unmarshal_def)

theorem failed_decode_leaves_Map_witness:
  "UnmarshalFunc pairs_Serializer = Some pairs_Unmarshal \<and>
   pairs_Unmarshal [1] = Inl (CodecError ''unexpected end of input'') \<and>
   UnmarshalWith example_Map [1] (Some pairs_Serializer) =
     Inr (example_Map, Some (CodecError ''unexpected end of input'')) \<and>
   Serializer (opts (example_Map\<lparr>opts := WithSerializer (Some pairs_Serializer) (opts example_Map)\<rparr>))
     = Some pairs_Serializer \<and>
   LoadFromFile example_filepath
       (example_Map\<lparr>opts := WithSerializer (Some pairs_Serializer) (opts example_Map)\<rparr>)
       (example_FS\<lparr>files := (files example_FS)(''/f'' \<mapsto> [1])\<rparr>) ''/f'' =
     Inr (example_Map\<lparr>opts := WithSerializer (Some pairs_Serializer) (opts example_Map)\<rparr>,
          example_FS\<lparr>files := (files example_FS)(''/f'' \<mapsto> [1]),
                     calls := [Stat ''/f'', ReadFile ''/f'']\<rparr>,
          Some (Wrapf ''failed to unmarshal data from /f'' (CodecError ''unexpected end of input'')))"
proof -
  have a: "UnmarshalFunc pairs_Serializer = Some pairs_Unmarshal"
    by (simp add: pairs_Serializer_def)
  let ?m = "example_Map\<lparr>opts := WithSerializer (Some pairs_Serializer) (opts example_Map)\<rparr>"
  let ?w = "example_FS\<lparr>files := (files example_FS)(''/f'' \<mapsto> [1])\<rparr>"
  have b: "Serializer (opts ?m) = Some pairs_Serializer"
    by (simp add: WithSerializer_def)
  have c: "files ?w ''/f'' = Some [1]" "\<not> faulty ?w ''/f''" "calls ?w = []"
    by (simp_all add: example_FS_def)
  show ?thesis
    using a b c pairs_file
      failed_decode_leaves_Map [of pairs_Serializer pairs_Unmarshal "[1]"
        "CodecError ''unexpected end of input''" example_Map]
      failed_decode_leaves_Map [of pairs_Serializer pairs_Unmarshal "[1]"
        "CodecError ''unexpected end of input''" ?m "''/f''" ?w example_filepath]
    by simp
qed










lemma example_Map_Size: "Size example_Map = 2"
  by (simp add: Size_def example_Map_eq be_Size_def)




lemma pairs_decode_encode:
  "pairs_decode (concat (map (\<lambda>t. [Key t, Value t]) ts)) = Inr ts"
proof (induction ts)
  case Nil
  show ?case by simp
next
  case (Cons t ts)
  have "\<lparr>Key = Key t, Value = Value t\<rparr> = t" by (cases t) simp
  with Cons.IH show ?case by simp
qed

lemma pairs_inverse: "\<forall>d b. pairs_Marshal d = Inr b \<longrightarrow> pairs_Unmarshal b = Inr d"
proof (intro allI impI)
  fix d :: "(8 word, 8 word) SerializableData" and b
  assume "pairs_Marshal d = Inr b"
  then have b: "b = concat (map (\<lambda>t. [Key t, Value t]) (Items d))"
    by (simp add: pairs_Marshal_def)
  have "\<lparr>Items = Items d\<rparr> = d" by (cases d) simp
  then show "pairs_Unmarshal b = Inr d"
    by (simp add: pairs_Unmarshal_def b pairs_decode_encode)
qed

lemma example_Map_pairs:
  "MarshalWith example_Map (Some pairs_Serializer) = Inr (Inr [2, 20, 7, 42])"
  by (simp add: MarshalWith_def pairs_Serializer_def pairs_Marshal_def)
     (simp add: example_Map_eq shard_items_def be_Keys_def be_Get_def)

lemma example_Get_2: "Get example_Map 2 = Inr (Some 20)"
  by (simp add: Get_def example_getShard be_Get_def) (simp add: example_Map_eq)

theorem roundtrip_witness:
  "MarshalFunc pairs_Serializer = Some pairs_Marshal \<and>
   UnmarshalFunc pairs_Serializer = Some pairs_Unmarshal \<and>
   Put_loop (NewHashMap example_extern uint8Hasher_Hash [WithShardCount 2])
     [\<lparr>Key = 7, Value = 42\<rparr>, \<lparr>Key = 2, Value = 20\<rparr>] = Inr example_Map \<and>
   MarshalWith example_Map (Some pairs_Serializer) = Inr (Inr [2, 20, 7, 42]) \<and>
   unat (ShardCount (opts (NewHashMap example_extern uint8Hasher_Hash [WithShardCount 4])))
     \<le> 2 ^ 31 \<and>
   (\<exists>m2. UnmarshalWith (NewHashMap example_extern uint8Hasher_Hash [WithShardCount 4])
            [2, 20, 7, 42] (Some pairs_Serializer) = Inr (m2, None) \<and>
      Size m2 = 2 \<and> Get m2 7 = Inr (Some 42) \<and> Get m2 2 = Inr (Some 20))"
proof -
  have enc: "MarshalFunc pairs_Serializer = Some pairs_Marshal"
    and dec: "UnmarshalFunc pairs_Serializer = Some pairs_Unmarshal"
    by (simp_all add: pairs_Serializer_def)
  have puts: "Put_loop (NewHashMap example_extern uint8Hasher_Hash [WithShardCount 2])
     [\<lparr>Key = 7, Value = 42\<rparr>, \<lparr>Key = 2, Value = 20\<rparr>] = Inr example_Map"
    using example_Map_reached by (simp add: example_new_def)
  have range: "unat (ShardCount (opts (NewHashMap example_extern uint8Hasher_Hash
      [WithShardCount 4]))) \<le> 2 ^ 31"
    by (simp add: NewHashMap_opts WithShardCount_def)
  then have fresh: "[WithShardCount 4] = [WithShardCount 2] \<or>
      unat (ShardCount (opts (NewHashMap example_extern uint8Hasher_Hash
        [WithShardCount 4 :: (8 word, 8 word) Options \<Rightarrow> (8 word, 8 word) Options])))
        \<le> 2 ^ 31"
    by (rule disjI2)
  from roundtrip [OF enc dec pairs_inverse puts example_Map_pairs fresh]
  obtain m2 where m2:
    "UnmarshalWith (NewHashMap example_extern uint8Hasher_Hash [WithShardCount 4])
       [2, 20, 7, 42] (Some pairs_Serializer) = Inr (m2, None)"
    "Size m2 = Size example_Map"
    "\<forall>t\<in>set [\<lparr>Key = 7, Value = 42\<rparr>, \<lparr>Key = 2, Value = 20 :: 8 word\<rparr>].
       Get m2 (Key t) = Get example_Map (Key t)"
    by blast
  from m2(3) have "Get m2 7 = Inr (Some 42)" "Get m2 2 = Inr (Some 20)"
    by (simp_all add: example_Get example_Get_2)
  with m2(1,2) enc dec puts range example_Map_pairs show ?thesis
    by (simp add: example_Map_Size) 
qed

lemma example_no_shards:
  "NewHashMap example_extern uint8Hasher_Hash [WithShardCount 0x80000001] =
     \<lparr>shards = [], mask32 = 0xFFFFFFFF, dirty = False, hasher = uint8Hasher_Hash,
      opts = \<lparr>ShardCount = 0x80000001, Serializer = Some (JsonSerializer example_extern)\<rparr>\<rparr>"
  by (simp add: NewHashMap_def createMap_def Let_def WithShardCount_def roundUp_overflow
      example_extern_def)

lemma example_decoded:
  "pairs_Unmarshal [2, 20, 7, 42] =
     Inr \<lparr>Items = [\<lparr>Key = 2, Value = 20\<rparr>, \<lparr>Key = 7, Value = 42\<rparr>]\<rparr>"
  by (simp add: pairs_Unmarshal_def)

lemma example_hash_2: "unat (uint8Hasher_Hash 2 AND 0xFFFFFFFF) = 1722258072"
  by (simp add: uint8Hasher_Hash_def uint32Hash_def Let_def)

text \<open>
  C1.  The round trip holds whenever the fresh Map has shards (theorem \<open>roundtrip\<close>:
  the same options, or any shard count up to \<open>2 ^ 31\<close>).  It fails for a fresh Map
  made with the requested count \<open>0x80000001\<close>, which has no shard: two entries are
  put into a Map of two shards and serialized, the codec decodes the bytes to the same
  two entries, and \<open>UnmarshalWith\<close> on the fresh Map clears it and then panics in the
  first \<open>Put\<close>, at the shard access.
\<close>

theorem roundtrip_panics_without_shards:
  "Put_loop (NewHashMap example_extern uint8Hasher_Hash [WithShardCount 2])
     [\<lparr>Key = 7, Value = 42\<rparr>, \<lparr>Key = 2, Value = 20\<rparr>] = Inr example_Map \<and>
   MarshalWith example_Map (Some pairs_Serializer) = Inr (Inr [2, 20, 7, 42]) \<and>
   pairs_Unmarshal [2, 20, 7, 42] =
     Inr \<lparr>Items = [\<lparr>Key = 2, Value = 20\<rparr>, \<lparr>Key = 7, Value = 42\<rparr>]\<rparr> \<and>
   UnmarshalWith (NewHashMap example_extern uint8Hasher_Hash [WithShardCount 0x80000001])
     [2, 20, 7, 42] (Some pairs_Serializer) = Inl (IndexOutOfRange 1722258072 0)"
proof -
  have puts: "Put_loop (NewHashMap example_extern uint8Hasher_Hash [WithShardCount 2])
     [\<lparr>Key = 7, Value = 42\<rparr>, \<lparr>Key = 2, Value = 20\<rparr>] = Inr example_Map"
    using example_Map_reached by (simp add: example_new_def)
  have "UnmarshalWith (NewHashMap example_extern uint8Hasher_Hash [WithShardCount 0x80000001])
     [2, 20, 7, 42] (Some pairs_Serializer) = Inl (IndexOutOfRange 1722258072 0)"
    by (simp add: UnmarshalWith_def pairs_Serializer_def example_decoded example_no_shards
        Clear_def Put_def getShard_def Let_def example_hash_2)
  with puts example_Map_pairs example_decoded show ?thesis by simp
qed

end
